theory Spec2Isabelle
  imports Complex_Main
begin

section \<open>JavaScript numbers\<close>

text \<open>
  The values the hooks compute are JavaScript numbers: binary64 floating point. The
  layout quantities read from the browser (\<open>window.scrollY\<close>, \<open>window.innerHeight\<close>,
  \<open>scrollHeight\<close>, the fields of a \<open>DOMRect\<close>) are finite, so they are reals here; the
  result of an operation is a \<open>jsnum\<close>, a finite value or one of the three special
  values. The two zeros are one value: no operand read from the browser is taken to be
  \<open>-0\<close>, a sum or difference of such operands is never \<open>-0\<close>, and the clamps send a
  quotient \<open>-0\<close> where they send \<open>+0\<close>.
\<close>

datatype jsnum = Fin real | PosInf | NegInf | NaN

text \<open>
  The quotient in \<open>calculateScrollProgress\<close>, with the special values of a division by
  zero; a finite quotient is kept unrounded there. A zero divisor is always \<open>+0\<close> (it
  is the difference of finite values), so the sign of the quotient is the sign of \<open>a\<close>.
\<close>

definition js_div :: "real \<Rightarrow> real \<Rightarrow> jsnum" where
  "js_div a b =
     (if b \<noteq> 0 then Fin (a / b)
      else if a = 0 then NaN
      else if 0 < a then PosInf
      else NegInf)"

subsection \<open>Rounding to binary64\<close>

text \<open>The number of binary digits of a natural number.\<close>

fun bit_length :: "nat \<Rightarrow> nat" where
  "bit_length n = (if n = 0 then 0 else Suc (bit_length (n div 2)))"

declare bit_length.simps [simp del]

text \<open>The binary exponent of a non-zero real: the \<open>e\<close> with \<open>2 ^ e \<le> |x| < 2 ^ (e + 1)\<close>.\<close>

definition binade :: "real \<Rightarrow> int" where
  "binade x =
     (if 1 \<le> \<bar>x\<bar> then int (bit_length (nat \<lfloor>\<bar>x\<bar>\<rfloor>)) - 1
      else - int (bit_length (nat (\<lceil>1 / \<bar>x\<bar>\<rceil> - 1))))"

text \<open>The nearest integer, a tie going to the even one.\<close>

definition round_half_even :: "real \<Rightarrow> int" where
  "round_half_even r =
     (let n = \<lfloor>r\<rfloor>; d = r - of_int n in
      if d < 1 / 2 then n
      else if 1 / 2 < d then n + 1
      else if even n then n else n + 1)"

text \<open>
  The binary64 value of an exact result, rounding to nearest with ties to even: 53
  significant bits, an exponent of at least \<open>-1022\<close> (below it the spacing stays
  \<open>2 ^ -1074\<close>), and an infinity when the rounded magnitude reaches \<open>2 ^ 1024\<close>.
\<close>

definition fl :: "real \<Rightarrow> jsnum" where
  "fl x =
     (if x = 0 then Fin 0
      else
        (let e = max (binade x) (- 1022) - 52;
             r = of_int (round_half_even (x / 2 powi e)) * 2 powi e
         in if 2 powi 1024 \<le> \<bar>r\<bar> then (if 0 < x then PosInf else NegInf) else Fin r))"

text \<open>The operators \<open>+\<close>, unary and binary \<open>-\<close>, and \<open>/\<close> of JavaScript.\<close>

fun js_plus :: "jsnum \<Rightarrow> jsnum \<Rightarrow> jsnum" where
  "js_plus NaN y = NaN"
| "js_plus x NaN = NaN"
| "js_plus PosInf NegInf = NaN"
| "js_plus NegInf PosInf = NaN"
| "js_plus PosInf y = PosInf"
| "js_plus x PosInf = PosInf"
| "js_plus NegInf y = NegInf"
| "js_plus x NegInf = NegInf"
| "js_plus (Fin a) (Fin b) = fl (a + b)"

fun js_negate :: "jsnum \<Rightarrow> jsnum" where
  "js_negate NaN = NaN"
| "js_negate PosInf = NegInf"
| "js_negate NegInf = PosInf"
| "js_negate (Fin a) = Fin (- a)"

definition js_minus :: "jsnum \<Rightarrow> jsnum \<Rightarrow> jsnum" where
  "js_minus x y = js_plus x (js_negate y)"

fun js_divide :: "jsnum \<Rightarrow> jsnum \<Rightarrow> jsnum" where
  "js_divide NaN y = NaN"
| "js_divide x NaN = NaN"
| "js_divide PosInf PosInf = NaN"
| "js_divide PosInf NegInf = NaN"
| "js_divide NegInf PosInf = NaN"
| "js_divide NegInf NegInf = NaN"
| "js_divide PosInf (Fin b) = (if b < 0 then NegInf else PosInf)"
| "js_divide NegInf (Fin b) = (if b < 0 then PosInf else NegInf)"
| "js_divide (Fin a) PosInf = Fin 0"
| "js_divide (Fin a) NegInf = Fin 0"
| "js_divide (Fin a) (Fin b) =
     (if b \<noteq> 0 then fl (a / b)
      else if a = 0 then NaN
      else if 0 < a then PosInf
      else NegInf)"

subsection \<open>Minimum, maximum and comparison\<close>

text \<open>\<open>Math.min\<close> and \<open>Math.max\<close> of two arguments: \<open>NaN\<close> if either argument is.\<close>

fun Math_min :: "jsnum \<Rightarrow> jsnum \<Rightarrow> jsnum" where
  "Math_min NaN y = NaN"
| "Math_min x NaN = NaN"
| "Math_min NegInf y = NegInf"
| "Math_min x NegInf = NegInf"
| "Math_min PosInf y = y"
| "Math_min x PosInf = x"
| "Math_min (Fin a) (Fin b) = Fin (min a b)"

fun Math_max :: "jsnum \<Rightarrow> jsnum \<Rightarrow> jsnum" where
  "Math_max NaN y = NaN"
| "Math_max x NaN = NaN"
| "Math_max PosInf y = PosInf"
| "Math_max x PosInf = PosInf"
| "Math_max NegInf y = y"
| "Math_max x NegInf = x"
| "Math_max (Fin a) (Fin b) = Fin (max a b)"

text \<open>The comparison \<open>x <= y\<close> of JavaScript: false as soon as one side is \<open>NaN\<close>.\<close>

fun js_le :: "jsnum \<Rightarrow> jsnum \<Rightarrow> bool" where
  "js_le NaN y = False"
| "js_le x NaN = False"
| "js_le NegInf y = True"
| "js_le x PosInf = True"
| "js_le PosInf y = False"
| "js_le x NegInf = False"
| "js_le (Fin a) (Fin b) = (a \<le> b)"

section \<open>The browser state the hooks read\<close>

text \<open>A \<open>DOMRect\<close> as \<open>getBoundingClientRect\<close> returns it: \<open>top\<close> is relative to the
  viewport, and \<open>bottom\<close> is \<open>top + height\<close>.\<close>

record dom_rect =
  rect_top :: real
  rect_height :: real

definition rect_bottom :: "dom_rect \<Rightarrow> real" where
  "rect_bottom r = rect_top r + rect_height r"

text \<open>
  \<open>scrollY\<close> is \<open>window.scrollY\<close>, \<open>innerHeight\<close> is \<open>window.innerHeight\<close>, \<open>scrollHeight\<close> is
  \<open>document.documentElement.scrollHeight\<close>, and \<open>elements\<close> is \<open>document.getElementById\<close>
  followed by the element's bounding rectangle: \<open>None\<close> where no element has the id.
\<close>

record window =
  scrollY :: real
  innerHeight :: real
  scrollHeight :: real
  elements :: "string \<rightharpoonup> dom_rect"

datatype js_error = TypeError

text \<open>A method call on the result of \<open>getElementById\<close>: a \<open>TypeError\<close> on \<open>null\<close>.\<close>

definition getBoundingClientRect :: "dom_rect option \<Rightarrow> js_error + dom_rect" where
  "getBoundingClientRect element =
     (case element of None \<Rightarrow> Inl TypeError | Some rect \<Rightarrow> Inr rect)"

section \<open>useScrollProgress.ts\<close>

text \<open>\<open>calculateScrollProgress\<close> of \<open>useScrollProgress\<close>: the value it passes to
  \<open>setScrollProgress\<close>.\<close>

definition calculateScrollProgress :: "window \<Rightarrow> jsnum" where
  "calculateScrollProgress w =
     (let windowHeight = innerHeight w;
          documentHeight = scrollHeight w - windowHeight;
          scrolled = scrollY w;
          progress = Math_min (js_div scrolled documentHeight) (Fin 1)
      in progress)"

text \<open>
  \<open>calculateProgress\<close> of \<open>useScrollSection\<close>. The third argument is the hook's state
  \<open>progress\<close> before the call and the result is the state after it: the early return
  leaves the state as it is, otherwise \<open>setProgress\<close> replaces it. Every operation
  rounds to binary64, in the order of the source.
\<close>

definition calculateProgress :: "string \<Rightarrow> window \<Rightarrow> jsnum \<Rightarrow> js_error + jsnum" where
  "calculateProgress sectionId w progress =
     (let section = elements w sectionId in
      if section = None then Inr progress
      else
        (case getBoundingClientRect section of
           Inl e \<Rightarrow> Inl e
         | Inr rect \<Rightarrow>
             (let sectionTop = js_plus (Fin (rect_top rect)) (Fin (scrollY w));
                  sectionHeight = Fin (rect_height rect);
                  windowHeight = Fin (innerHeight w);
                  scrollY' = Fin (scrollY w);
                  start = js_minus sectionTop windowHeight;
                  endv = js_plus sectionTop sectionHeight;
                  scrollRange = js_minus endv start;
                  currentScroll = js_minus scrollY' start;
                  sectionProgress =
                    Math_max (Fin 0)
                      (Math_min (Fin 1) (js_divide currentScroll scrollRange))
              in Inr sectionProgress)))"





text \<open>The \<open>clamp\<close> of the specification, on reals and on JavaScript numbers, and the
  formula of the specification for the section progress, from the section's document
  offset, its height, the viewport height and the scroll offset, each operation being
  the one of JavaScript.\<close>

definition clamp :: "real \<Rightarrow> real \<Rightarrow> real \<Rightarrow> real" where
  "clamp x lo hi = max lo (min hi x)"



section \<open>Navigation.tsx\<close>

record nav_item =
  item_id :: string
  item_label :: string

definition navItems :: "nav_item list" where
  "navItems =
     [\<lparr>item_id = ''hero'', item_label = ''Home''\<rparr>,
      \<lparr>item_id = ''work'', item_label = ''Work''\<rparr>,
      \<lparr>item_id = ''experience'', item_label = ''Experience''\<rparr>,
      \<lparr>item_id = ''skills'', item_label = ''Skills''\<rparr>,
      \<lparr>item_id = ''blog'', item_label = ''Blog''\<rparr>,
      \<lparr>item_id = ''contact'', item_label = ''Contact''\<rparr>]"

text \<open>The two \<open>useState\<close> cells of the component and their initial values.\<close>

record nav_state =
  scrolled :: bool
  activeSection :: string

definition Navigation_init :: nav_state where
  "Navigation_init = \<lparr>scrolled = False, activeSection = ''hero''\<rparr>"

definition isHomePage :: "string \<Rightarrow> bool" where
  "isHomePage pathname = (pathname = ''/'')"

text \<open>
  The \<open>for\<close> loop of \<open>handleScroll\<close> over the section ids. The last argument is the
  active section before the loop; the result is the active section after it: the first
  id whose element exists and whose rectangle contains the line 150px below the top of
  the viewport is assigned and ends the loop (\<open>break\<close>), an id without an element is
  passed over, and a loop that assigns nothing leaves the state as it was.
\<close>

fun scan_sections :: "window \<Rightarrow> string list \<Rightarrow> string \<Rightarrow> string" where
  "scan_sections w [] active = active"
| "scan_sections w (sectionId # sections) active =
     (case elements w sectionId of
        None \<Rightarrow> scan_sections w sections active
      | Some rect \<Rightarrow>
          if rect_top rect \<le> 150 \<and> rect_bottom rect \<ge> 150 then sectionId
          else scan_sections w sections active)"

definition handleScroll :: "string \<Rightarrow> window \<Rightarrow> nav_state \<Rightarrow> nav_state" where
  "handleScroll pathname w st =
     (let st' = st\<lparr>scrolled := (scrollY w > 50)\<rparr> in
      if isHomePage pathname then
        (let sections = map item_id navItems in
         st'\<lparr>activeSection := scan_sections w sections (activeSection st')\<rparr>)
      else st')"

text \<open>
  The component subscribes \<open>handleScroll\<close> to \<open>scroll\<close> events of the window and to
  nothing else, so a \<open>resize\<close> event reaches no handler of the component. An event comes
  with the route's pathname and the browser state at the time it fires.
\<close>

datatype window_event = Scroll | Resize

definition Navigation_on_event ::
    "string \<Rightarrow> window_event \<Rightarrow> window \<Rightarrow> nav_state \<Rightarrow> nav_state" where
  "Navigation_on_event pathname ev w st =
     (case ev of Scroll \<Rightarrow> handleScroll pathname w st | Resize \<Rightarrow> st)"

fun Navigation_run ::
    "(string \<times> window_event \<times> window) list \<Rightarrow> nav_state \<Rightarrow> nav_state" where
  "Navigation_run [] st = st"
| "Navigation_run ((pathname, ev, w) # evs) st =
     Navigation_run evs (Navigation_on_event pathname ev w st)"

text \<open>The probe condition of the specification: the section is mounted, its top is at
  most 150 and its bottom at least 150, relative to the viewport.\<close>

definition probe :: "window \<Rightarrow> string \<Rightarrow> bool" where
  "probe w sectionId =
     (case elements w sectionId of
        None \<Rightarrow> False
      | Some rect \<Rightarrow> rect_top rect \<le> 150 \<and> rect_bottom rect \<ge> 150)"

text \<open>
  What the component renders for a nav item: on the home page a button, with the class
  \<open>active\<close> when the item is the active section; elsewhere a router link to \<open>/#id\<close>.
\<close>

datatype nav_element = Button bool | Link string

definition render_item :: "string \<Rightarrow> nav_state \<Rightarrow> nav_item \<Rightarrow> nav_element" where
  "render_item pathname st item =
     (if isHomePage pathname then Button (activeSection st = item_id item)
      else Link (''/#'' @ item_id item))"

datatype scroll_behavior = Smooth

datatype effect =
    ScrollToCall string
  | RouterNavigate string
  | ScrollIntoView string scroll_behavior

definition handleNavClick :: "string \<Rightarrow> string \<Rightarrow> effect list" where
  "handleNavClick pathname sectionId =
     (if isHomePage pathname then [ScrollToCall sectionId] else [])"

text \<open>
  A click on a rendered nav item runs its \<open>onClick\<close>, which is \<open>handleNavClick\<close> in both
  renderings; a router link then navigates to its target, since the handler does not
  prevent the default; a button has no default action.
\<close>

definition click_item :: "string \<Rightarrow> nav_state \<Rightarrow> nav_item \<Rightarrow> effect list" where
  "click_item pathname st item =
     handleNavClick pathname (item_id item) @
     (case render_item pathname st item of
        Button active \<Rightarrow> []
      | Link target \<Rightarrow> [RouterNavigate target])"

text \<open>
  Modelled from the spec: the helper \<open>scrollTo\<close> of \<open>@utils/scrollTo\<close>, which
  \<open>Navigation.tsx\<close> imports and which is not among the sources. The specification has
  it scroll the viewport smoothly until the target section's top is at the top of the
  viewport, and skip silently when no element has the id. The model gives the browser
  state when the scroll has come to rest: the offset grows by the target's distance
  from the viewport top, and every rectangle moves up by as much.
\<close>

definition scrollTo :: "string \<Rightarrow> window \<Rightarrow> window" where
  "scrollTo sectionId w =
     (case elements w sectionId of
        None \<Rightarrow> w
      | Some rect \<Rightarrow>
          w\<lparr>scrollY := scrollY w + rect_top rect,
            elements :=
              (\<lambda>i. map_option (\<lambda>r. r\<lparr>rect_top := rect_top r - rect_top rect\<rparr>)
                     (elements w i))\<rparr>)"

section \<open>HomePage.tsx\<close>

text \<open>
  The effect that handles the hash of the location. It scrolls nothing itself; with a
  non-empty hash it sets one timer of 100 ms, whose callback looks up the id that
  follows the \<open>#\<close>.
\<close>

record effect_result =
  immediate :: "effect list"
  timers :: "(nat \<times> string) list"

definition hashEffect :: "string \<Rightarrow> effect_result" where
  "hashEffect hash =
     (if hash \<noteq> [] then
        (let sid = drop 1 hash in \<lparr>immediate = [], timers = [(100, sid)]\<rparr>)
      else \<lparr>immediate = [], timers = []\<rparr>)"

text \<open>A plain call of \<open>scrollIntoView\<close> on the result of \<open>getElementById\<close>: a
  \<open>TypeError\<close> on \<open>null\<close>.\<close>

definition scrollIntoView ::
    "string \<Rightarrow> dom_rect option \<Rightarrow> scroll_behavior \<Rightarrow> js_error + effect list" where
  "scrollIntoView sid element behavior =
     (case element of
        None \<Rightarrow> Inl TypeError
      | Some rect \<Rightarrow> Inr [ScrollIntoView sid behavior])"

text \<open>The timer's callback: \<open>element?.scrollIntoView({ behavior: 'smooth' })\<close>, where the
  optional chaining makes the call only on an element.\<close>

definition hashTimeout :: "string \<Rightarrow> window \<Rightarrow> js_error + effect list" where
  "hashTimeout sid w =
     (let element = elements w sid in
      if element = None then Inr [] else scrollIntoView sid element Smooth)"

section \<open>Example layouts\<close>

text \<open>A document exactly as tall as the viewport, at rest at the top.\<close>

definition short_document :: window where
  "short_document =
     \<lparr>scrollY = 0, innerHeight = 800, scrollHeight = 800, elements = Map.empty\<rparr>"




text \<open>
  Three sections of 800px stacked from the top of the document, in a viewport of 1000px
  scrolled to offset \<open>y\<close>: \<open>hero\<close> at 0--800, \<open>work\<close> at 800--1600 and \<open>experience\<close> at
  1600--2400. The other registered sections are not mounted.
\<close>

definition stacked_page :: "real \<Rightarrow> window" where
  "stacked_page y =
     \<lparr>scrollY = y, innerHeight = 1000, scrollHeight = 2400,
      elements =
        [''hero'' \<mapsto> \<lparr>rect_top = 0 - y, rect_height = 800\<rparr>,
         ''work'' \<mapsto> \<lparr>rect_top = 800 - y, rect_height = 800\<rparr>,
         ''experience'' \<mapsto> \<lparr>rect_top = 1600 - y, rect_height = 800\<rparr>]\<rparr>"

section \<open>Rounding\<close>

text \<open>The exponent found by \<open>binade\<close> is the binary exponent, the integer chosen by
  \<open>round_half_even\<close> is within a half of its argument, and rounding gives no \<open>NaN\<close>.\<close>

lemma bit_length_bounds: "0 < n \<Longrightarrow> 2 ^ (bit_length n - 1) \<le> n \<and> n < 2 ^ bit_length n"
proof (induction n rule: bit_length.induct)
  case (1 n)
  show ?case
  proof (cases "n div 2 = 0")
    case True
    with "1.prems" have "n = 1" by (simp add: div_eq_0_iff)
    then show ?thesis by (simp add: bit_length.simps)
  next
    case False
    then have pos: "0 < n div 2" by simp
    from "1.IH" "1.prems" pos have IH: "2 ^ (bit_length (n div 2) - 1) \<le> n div 2" "n div 2 < 2 ^ bit_length (n div 2)"
      by auto
    have bl: "bit_length n = Suc (bit_length (n div 2))"
      using "1.prems" by (subst bit_length.simps) simp
    have blpos: "0 < bit_length (n div 2)"
      using pos by (subst bit_length.simps) simp
    then obtain k where k: "bit_length (n div 2) = Suc k" by (cases "bit_length (n div 2)") auto
    have "2 * (n div 2) \<le> n" "n < 2 * (n div 2) + 2" by arith+
    then show ?thesis using IH unfolding bl k by auto
  qed
qed

lemma round_half_even_close: "\<bar>of_int (round_half_even r) - r\<bar> \<le> 1 / 2"
  unfolding round_half_even_def Let_def by (auto simp: abs_if) linarith+

lemma fl_not_NaN: "fl x \<noteq> NaN"
  by (simp add: fl_def Let_def)

lemma real_pow2_le: "2 ^ k \<le> (n::nat) \<Longrightarrow> (2::real) ^ k \<le> real n"
proof -
  assume "2 ^ k \<le> n"
  then have "real (2 ^ k) \<le> real n" by (simp only: of_nat_le_iff)
  then show ?thesis by simp
qed

lemma real_pow2_gt: "(n::nat) < 2 ^ k \<Longrightarrow> real n + 1 \<le> (2::real) ^ k"
proof -
  assume "n < 2 ^ k"
  then have "Suc n \<le> 2 ^ k" by simp
  then have "real (Suc n) \<le> real (2 ^ k)" by (simp only: of_nat_le_iff)
  then show ?thesis by simp
qed

lemma bit_length_Suc:
  assumes "0 < n"
  obtains k where "bit_length n = Suc k" "(2::real) ^ k \<le> real n" "real n + 1 \<le> 2 ^ Suc k"
proof -
  from bit_length_bounds [OF assms] have *: "2 ^ (bit_length n - 1) \<le> n" "n < 2 ^ bit_length n"
    by simp_all
  have "bit_length n \<noteq> 0" using assms by (subst bit_length.simps) simp
  then obtain k where k: "bit_length n = Suc k" by (cases "bit_length n") simp_all
  from * have lo: "2 ^ k \<le> n" and hi: "n < 2 ^ Suc k" unfolding k by simp_all
  have "(2::real) ^ k \<le> real n" by (rule real_pow2_le [OF lo])
  moreover have "real n + 1 \<le> 2 ^ Suc k" by (rule real_pow2_gt [OF hi])
  ultimately show thesis using k by (rule that [rotated])
qed

lemma binade_bounds:
  assumes "x \<noteq> 0"
  shows "2 powi binade x \<le> \<bar>x\<bar> \<and> \<bar>x\<bar> < 2 powi (binade x + 1)"
proof (cases "1 \<le> \<bar>x\<bar>")
  case True
  define n where "n = nat \<lfloor>\<bar>x\<bar>\<rfloor>"
  have "1 \<le> \<lfloor>\<bar>x\<bar>\<rfloor>" using True by simp
  then have n0: "0 < n" unfolding n_def by simp
  have rn: "real n = of_int \<lfloor>\<bar>x\<bar>\<rfloor>" unfolding n_def by simp
  have n1: "real n \<le> \<bar>x\<bar>" and n2: "\<bar>x\<bar> < real n + 1"
    unfolding rn by linarith+
  from bit_length_Suc [OF n0] obtain k where k: "bit_length n = Suc k"
    and lo: "(2::real) ^ k \<le> real n" and hi: "real n + 1 \<le> 2 ^ Suc k"
    by blast
  have b: "binade x = int k"
    using True by (simp add: binade_def n_def [symmetric] k)
  have p1: "(2::real) powi int k = 2 ^ k" by simp
  have p2: "(2::real) powi (int k + 1) = 2 ^ Suc k"
    by (simp add: power_int_add)
  show ?thesis unfolding b p1 p2 using lo hi n1 n2 by linarith
next
  case False
  define y where "y = 1 / \<bar>x\<bar>"
  have xpos: "0 < \<bar>x\<bar>" using assms by simp
  have y: "1 < y" using False xpos unfolding y_def by simp
  define m where "m = nat (\<lceil>y\<rceil> - 1)"
  have "2 \<le> \<lceil>y\<rceil>" using y by linarith
  then have m0: "0 < m" unfolding m_def by simp
  have rm: "real m = of_int \<lceil>y\<rceil> - 1" using \<open>2 \<le> \<lceil>y\<rceil>\<close> unfolding m_def by simp
  have m1: "real m < y" and m2: "y \<le> real m + 1"
    unfolding rm by linarith+
  from bit_length_Suc [OF m0] obtain k where k: "bit_length m = Suc k"
    and lo: "(2::real) ^ k \<le> real m" and hi: "real m + 1 \<le> 2 ^ Suc k"
    by blast
  have b: "binade x = - int (Suc k)"
    using False by (simp add: binade_def y_def [symmetric] m_def [symmetric] k)
  have 1: "2 ^ k < y" using lo m1 by linarith
  have 2: "y \<le> 2 ^ Suc k" using hi m2 by linarith
  have xy: "\<bar>x\<bar> = 1 / y" unfolding y_def by simp
  have ypos: "0 < y" using y by linarith
  have kpos: "(0::real) < 2 ^ k" by simp
  have a: "1 / 2 ^ Suc k \<le> 1 / y" using 2 ypos by (intro divide_left_mono) simp_all
  have c: "1 / y < 1 / 2 ^ k" using 1 kpos ypos by (intro divide_strict_left_mono) simp_all
  have p1: "(2::real) powi (- int (Suc k)) = 1 / 2 ^ Suc k"
    by (simp only: power_int_minus power_int_of_nat inverse_eq_divide)
  have "- int (Suc k) + 1 = - int k" by simp
  then have p2: "(2::real) powi (- int (Suc k) + 1) = 1 / 2 ^ k"
    by (simp only: power_int_minus power_int_of_nat inverse_eq_divide)
  show ?thesis unfolding b xy p1 p2 using a c by simp
qed

text \<open>A finite rounded value is within half a unit in the last place of the exact one.\<close>

lemma fl_half_ulp:
  assumes "fl x = Fin r"
  shows "\<bar>r - x\<bar> \<le> 2 powi (max (binade x) (- 1022) - 52) / 2"
proof (cases "x = 0")
  case True
  with assms show ?thesis by (simp add: fl_def)
next
  case False
  define p :: real where "p = 2 powi (max (binade x) (- 1022) - 52)"
  have p: "0 < p" unfolding p_def by simp
  from assms False have r: "r = of_int (round_half_even (x / p)) * p"
    by (simp add: fl_def Let_def p_def split: if_splits)
  have "r - x = (of_int (round_half_even (x / p)) - x / p) * p"
    using p unfolding r by (simp add: field_simps)
  then have "\<bar>r - x\<bar> = \<bar>of_int (round_half_even (x / p)) - x / p\<bar> * p"
    using p by (simp add: abs_mult)
  also have "\<dots> \<le> 1 / 2 * p"
    using round_half_even_close [of "x / p"] p by (intro mult_right_mono) simp_all
  finally show ?thesis unfolding p_def by simp
qed



lemma fl_cases:
  obtains r where "fl x = Fin r" | "fl x = PosInf" | "fl x = NegInf"
  by (cases "fl x") (simp_all add: fl_not_NaN)


section \<open>Document progress\<close>

text \<open>
  On a document taller than the viewport and a non-negative offset the hook computes the
  clamped ratio; within the scrollable range the value lies between 0 and 1 and grows
  with the offset.
\<close>

lemma calculateScrollProgress_tall_document:
  assumes "innerHeight w < scrollHeight w" and "0 \<le> scrollY w"
  shows "calculateScrollProgress w =
           Fin (clamp (scrollY w / (scrollHeight w - innerHeight w)) 0 1)"
  using assms
  by (simp add: calculateScrollProgress_def js_div_def clamp_def Let_def max_def min_def)

lemma calculateScrollProgress_monotone:
  assumes "innerHeight w < scrollHeight w"
    and "0 \<le> y1" and "y1 \<le> y2" and "y2 \<le> scrollHeight w - innerHeight w"
  shows "js_le (Fin 0) (calculateScrollProgress (w\<lparr>scrollY := y1\<rparr>)) \<and>
         js_le (calculateScrollProgress (w\<lparr>scrollY := y1\<rparr>))
               (calculateScrollProgress (w\<lparr>scrollY := y2\<rparr>)) \<and>
         js_le (calculateScrollProgress (w\<lparr>scrollY := y2\<rparr>)) (Fin 1)"
  using assms
  by (simp add: calculateScrollProgress_def js_div_def Let_def min_def divide_right_mono)

text \<open>
  C1. The document progress is the ratio of the offset to the scrollable height clamped
  to the unit interval, is 0 when the document is not taller than the viewport, and is
  never \<open>NaN\<close>. The hook has no branch for a scrollable height of zero and no lower
  clamp: on a document exactly as tall as the viewport it divides by zero, giving \<open>NaN\<close>
  at offset 0 and 1 at a positive offset, and a negative offset on a tall document gives
  a negative value.
\<close>

theorem calculateScrollProgress_zero_range:
  "calculateScrollProgress short_document = NaN \<and>
   calculateScrollProgress (short_document\<lparr>scrollY := 10\<rparr>) = Fin 1 \<and>
   calculateScrollProgress (short_document\<lparr>scrollY := - 20, scrollHeight := 1800\<rparr>) =
     Fin (- 1 / 50)"
  by (simp add: calculateScrollProgress_def short_document_def js_div_def)

text \<open>
  C2. For every offset between 0 and the scrollable height the document progress lies
  in the unit interval and does not decrease as the offset grows. Offset 0 of a
  document exactly as tall as the viewport is in that range, and the value there is
  \<open>NaN\<close>: it is neither at least 0 nor at most 1, nor comparable with itself.
\<close>

theorem calculateScrollProgress_not_in_unit_interval:
  "0 \<le> scrollY short_document \<and>
   scrollY short_document \<le> scrollHeight short_document - innerHeight short_document \<and>
   \<not> js_le (Fin 0) (calculateScrollProgress short_document) \<and>
   \<not> js_le (calculateScrollProgress short_document) (Fin 1) \<and>
   \<not> js_le (calculateScrollProgress short_document) (calculateScrollProgress short_document)"
  by (simp add: calculateScrollProgress_def short_document_def js_div_def)

section \<open>Section progress\<close>

text \<open>The hook never fails: the element is dereferenced only after the test for
  \<open>null\<close>.\<close>

lemma calculateProgress_no_error:
  "\<exists>p. calculateProgress sectionId w progress = Inr p"
  by (cases "elements w sectionId")
     (simp_all add: calculateProgress_def getBoundingClientRect_def Let_def)




text \<open>
  C4. When no element of the DOM has the section's id, an evaluation of the section
  progress leaves the stored value as it was and raises no error.
\<close>

theorem calculateProgress_not_mounted:
  assumes "elements w sectionId = None"
  shows "calculateProgress sectionId w progress = Inr progress"
  using assms by (simp add: calculateProgress_def)

theorem calculateProgress_not_mounted_witness:
  "elements (stacked_page 700) ''blog'' = None \<and>
   calculateProgress ''blog'' (stacked_page 700) (Fin (1 / 4)) = Inr (Fin (1 / 4))"
proof -
  have a: "elements (stacked_page 700) ''blog'' = None"
    by (simp add: stacked_page_def)
  show ?thesis
    using a calculateProgress_not_mounted [OF a, of "Fin (1 / 4)"] by simp
qed

section \<open>The active section\<close>

text \<open>The loop returns the first id that satisfies the probe condition, and the
  previous active section when there is none.\<close>

lemma scan_sections_find:
  "scan_sections w ids active =
     (case List.find (probe w) ids of None \<Rightarrow> active | Some sectionId \<Rightarrow> sectionId)"
  by (induction ids) (auto simp: probe_def split: option.splits)

lemma scan_sections_none:
  "\<forall>sectionId \<in> set ids. \<not> probe w sectionId \<Longrightarrow> scan_sections w ids active = active"
  by (induction ids) (auto simp: probe_def split: option.splits)

lemma scan_sections_member:
  "scan_sections w ids active = active \<or> scan_sections w ids active \<in> set ids"
  by (induction ids) (auto split: option.splits)

lemma navItems_distinct: "distinct (map item_id navItems)"
  by (simp add: navItems_def)

lemma navItems_ids:
  "set (map item_id navItems) =
     {''hero'', ''work'', ''experience'', ''skills'', ''blog'', ''contact''}"
  by (simp add: navItems_def)

lemma filter_distinct_key_le_one:
  "distinct (map f xs) \<Longrightarrow> length (filter (\<lambda>x. a = f x) xs) \<le> 1"
  by (induction xs) (auto simp: filter_empty_conv)

text \<open>
  C5. On the home page a scroll evaluation makes the active section the first
  registered section, in the order of the nav items (which is the order of the sections
  on the page), whose top is at most 150 and whose bottom is at least 150 relative to the
  viewport, and leaves it as it was when there is none. With three stacked sections of
  800px in a viewport of 1000px, the active section is the first at offset 0, the second
  at offset 700 and the third at offset 2000.
\<close>

theorem handleScroll_first_probed:
  assumes "isHomePage pathname"
  shows "activeSection (handleScroll pathname w st) =
           (case List.find (probe w) (map item_id navItems) of
              None \<Rightarrow> activeSection st
            | Some sectionId \<Rightarrow> sectionId) \<and>
         activeSection (handleScroll pathname (stacked_page 0) st) = ''hero'' \<and>
         activeSection (handleScroll pathname (stacked_page 700) st) = ''work'' \<and>
         activeSection (handleScroll pathname (stacked_page 2000) st) = ''experience''"
proof -
  have general: "activeSection (handleScroll pathname w' st) =
      scan_sections w' (map item_id navItems) (activeSection st)" for w'
    using assms by (simp add: handleScroll_def Let_def)
  have first: "activeSection (handleScroll pathname w st) =
      (case List.find (probe w) (map item_id navItems) of
         None \<Rightarrow> activeSection st | Some sectionId \<Rightarrow> sectionId)"
    by (simp add: general scan_sections_find)
  have at_0: "scan_sections (stacked_page 0) (map item_id navItems) a = ''hero''" for a
    by (simp add: navItems_def stacked_page_def rect_bottom_def)
  have at_700: "scan_sections (stacked_page 700) (map item_id navItems) a = ''work''" for a
    by (simp add: navItems_def stacked_page_def rect_bottom_def)
  have at_2000:
    "scan_sections (stacked_page 2000) (map item_id navItems) a = ''experience''" for a
    by (simp add: navItems_def stacked_page_def rect_bottom_def)
  show ?thesis
    using first by (simp add: general at_0 at_700 at_2000)
qed

theorem handleScroll_first_probed_witness:
  "isHomePage ''/'' \<and>
   List.find (probe (stacked_page 700)) (map item_id navItems) = Some ''work'' \<and>
   activeSection (handleScroll ''/'' (stacked_page 700) Navigation_init) = ''work''"
proof -
  have home: "isHomePage ''/''"
    by (simp add: isHomePage_def)
  have found: "List.find (probe (stacked_page 700)) (map item_id navItems) = Some ''work''"
    by (simp add: navItems_def probe_def stacked_page_def rect_bottom_def)
  show ?thesis
    using home found handleScroll_first_probed [OF home, of "stacked_page 700" Navigation_init]
    by simp
qed

text \<open>
  C6. At most one nav item is rendered as active, and a scroll evaluation that finds no
  registered section satisfying the probe condition leaves the active section exactly as
  it was.
\<close>

theorem handleScroll_retains_active:
  "length (filter (\<lambda>item. render_item pathname st item = Button True) navItems) \<le> 1 \<and>
   ((\<forall>sectionId \<in> set (map item_id navItems). \<not> probe w sectionId) \<longrightarrow>
      activeSection (handleScroll pathname w st) = activeSection st)"
proof -
  have one: "length (filter (\<lambda>item. render_item pathname st item = Button True) navItems) \<le> 1"
  proof (cases "isHomePage pathname")
    case True
    then show ?thesis
      using filter_distinct_key_le_one [OF navItems_distinct, of "activeSection st"]
      by (simp add: render_item_def)
  next
    case False
    then show ?thesis by (simp add: render_item_def)
  qed
  have keep: "activeSection (handleScroll pathname w st) = activeSection st"
    if "\<forall>sectionId \<in> set (map item_id navItems). \<not> probe w sectionId"
    using that by (simp add: handleScroll_def Let_def scan_sections_none)
  show ?thesis
    using one keep by blast
qed

theorem handleScroll_retains_active_witness:
  "list_all (\<lambda>sectionId. \<not> probe (stacked_page 5000) sectionId) (map item_id navItems) \<and>
   activeSection
     (handleScroll ''/'' (stacked_page 5000) \<lparr>scrolled = False, activeSection = ''work''\<rparr>) =
     ''work'' \<and>
   filter (\<lambda>item. render_item ''/'' \<lparr>scrolled = False, activeSection = ''work''\<rparr> item
                    = Button True) navItems =
     [\<lparr>item_id = ''work'', item_label = ''Work''\<rparr>]"
proof -
  have none: "list_all (\<lambda>sectionId. \<not> probe (stacked_page 5000) sectionId)
                (map item_id navItems)"
    by (simp add: navItems_def probe_def stacked_page_def rect_bottom_def)
  have shown: "filter (\<lambda>item. render_item ''/'' \<lparr>scrolled = False, activeSection = ''work''\<rparr> item
                    = Button True) navItems =
     [\<lparr>item_id = ''work'', item_label = ''Work''\<rparr>]"
    by (simp add: navItems_def render_item_def isHomePage_def)
  from none have "\<forall>sectionId \<in> set (map item_id navItems). \<not> probe (stacked_page 5000) sectionId"
    unfolding list_all_iff .
  then show ?thesis
    using none shown
      handleScroll_retains_active [of "''/''" "\<lparr>scrolled = False, activeSection = ''work''\<rparr>"
        "stacked_page 5000"]
    by simp
qed

text \<open>
  C7. On a page other than the home page no scroll or resize event changes the active
  section: the evaluation of the active section runs on the home page only.
\<close>

theorem Navigation_run_off_home:
  assumes "\<forall>(pathname, ev, w) \<in> set evs. \<not> isHomePage pathname"
  shows "activeSection (Navigation_run evs st) = activeSection st"
  using assms
  by (induction evs st rule: Navigation_run.induct)
     (auto simp: Navigation_on_event_def handleScroll_def split: window_event.splits)

theorem Navigation_run_off_home_witness:
  "\<not> isHomePage ''/projects/shop'' \<and>
   activeSection
     (Navigation_run
        [(''/projects/shop'', Scroll, stacked_page 700),
         (''/projects/shop'', Resize, stacked_page 0),
         (''/projects/shop'', Scroll, stacked_page 2000)]
        Navigation_init) = ''hero'' \<and>
   activeSection (Navigation_run [(''/'', Scroll, stacked_page 700)] Navigation_init) = ''work''"
proof -
  have off: "\<not> isHomePage ''/projects/shop''"
    by (simp add: isHomePage_def)
  have on: "activeSection (Navigation_run [(''/'', Scroll, stacked_page 700)] Navigation_init)
              = ''work''"
    by (simp add: Navigation_on_event_def handleScroll_def isHomePage_def navItems_def
          stacked_page_def rect_bottom_def Navigation_init_def)
  have init: "activeSection Navigation_init = ''hero''"
    by (simp add: Navigation_init_def)
  show ?thesis
    using off on init
      Navigation_run_off_home [of "[(''/projects/shop'', Scroll, stacked_page 700),
         (''/projects/shop'', Resize, stacked_page 0),
         (''/projects/shop'', Scroll, stacked_page 2000)]" Navigation_init]
    by simp
qed

text \<open>
  C10. The active section is always one of the registered ids \<open>hero\<close>, \<open>work\<close>,
  \<open>experience\<close>, \<open>skills\<close>, \<open>blog\<close> and \<open>contact\<close>: it is \<open>hero\<close> on mount, a scroll
  evaluation either keeps it or assigns the id of a nav item, and so it is a registered
  id after any sequence of events on any pages.
\<close>

theorem activeSection_registered:
  "activeSection Navigation_init = ''hero'' \<and>
   (activeSection (handleScroll pathname w st) = activeSection st \<or>
    activeSection (handleScroll pathname w st) \<in> set (map item_id navItems)) \<and>
   activeSection (Navigation_run evs Navigation_init) \<in>
     {''hero'', ''work'', ''experience'', ''skills'', ''blog'', ''contact''}"
proof -
  have assign: "activeSection (handleScroll p w' s) = activeSection s \<or>
      activeSection (handleScroll p w' s) \<in> set (map item_id navItems)" for p w' s
    using scan_sections_member [of w' "map item_id navItems" "activeSection s"]
    by (simp add: handleScroll_def Let_def)
  have step: "activeSection (Navigation_on_event p ev w' s) \<in> set (map item_id navItems)"
    if "activeSection s \<in> set (map item_id navItems)" for p ev w' s
    using that assign [of p w' s]
    by (cases ev) (auto simp: Navigation_on_event_def)
  have run: "activeSection (Navigation_run tr s) \<in> set (map item_id navItems)"
    if "activeSection s \<in> set (map item_id navItems)" for tr s
    using that
    by (induction tr s rule: Navigation_run.induct) (simp_all add: step del: set_map)
  have init: "activeSection Navigation_init = ''hero''"
    by (simp add: Navigation_init_def)
  then have "activeSection Navigation_init \<in> set (map item_id navItems)"
    by (simp add: navItems_def)
  then have "activeSection (Navigation_run evs Navigation_init) \<in> set (map item_id navItems)"
    by (rule run)
  then show ?thesis
    using init assign [of pathname w st] unfolding navItems_ids by blast
qed

section \<open>Navigation by click and by fragment\<close>

text \<open>
  C8. A click on the nav item of a registered section on the home page calls \<open>scrollTo\<close>
  for the section and navigates nowhere; when the section is mounted, the scroll ends
  with the section's top at the top of the viewport. The same click on any other page
  scrolls nothing and follows the link to \<open>/#id\<close>: the home page, with the section id
  as the fragment.
\<close>

theorem click_item_effects:
  assumes "item \<in> set navItems"
  shows "(isHomePage pathname \<longrightarrow>
            click_item pathname st item = [ScrollToCall (item_id item)] \<and>
            (\<forall>rect. elements w (item_id item) = Some rect \<longrightarrow>
               scrollY (scrollTo (item_id item) w) = scrollY w + rect_top rect \<and>
               map_option rect_top (elements (scrollTo (item_id item) w) (item_id item))
                 = Some 0)) \<and>
         (\<not> isHomePage pathname \<longrightarrow>
            click_item pathname st item = [RouterNavigate (''/#'' @ item_id item)])"
  by (auto simp: click_item_def handleNavClick_def render_item_def scrollTo_def)

theorem click_item_effects_witness:
  "\<lparr>item_id = ''contact'', item_label = ''Contact''\<rparr> \<in> set navItems \<and>
   isHomePage ''/'' \<and>
   click_item ''/'' Navigation_init \<lparr>item_id = ''contact'', item_label = ''Contact''\<rparr> =
     [ScrollToCall ''contact''] \<and>
   elements (stacked_page 700) ''work'' = Some \<lparr>rect_top = 100, rect_height = 800\<rparr> \<and>
   scrollY (scrollTo ''work'' (stacked_page 700)) = 800 \<and>
   map_option rect_top (elements (scrollTo ''work'' (stacked_page 700)) ''work'') = Some 0 \<and>
   \<not> isHomePage ''/projects/shop'' \<and>
   click_item ''/projects/shop'' Navigation_init
     \<lparr>item_id = ''contact'', item_label = ''Contact''\<rparr> = [RouterNavigate ''/#contact'']"
proof -
  have contact: "\<lparr>item_id = ''contact'', item_label = ''Contact''\<rparr> \<in> set navItems"
    by (simp add: navItems_def)
  have work: "\<lparr>item_id = ''work'', item_label = ''Work''\<rparr> \<in> set navItems"
    by (simp add: navItems_def)
  have home: "isHomePage ''/''" and off: "\<not> isHomePage ''/projects/shop''"
    by (simp_all add: isHomePage_def)
  have mounted: "elements (stacked_page 700) ''work'' = Some \<lparr>rect_top = 100, rect_height = 800\<rparr>"
    by (simp add: stacked_page_def)
  show ?thesis
    using contact home off mounted
      click_item_effects [OF contact, of "''/''" Navigation_init "stacked_page 700"]
      click_item_effects [OF work, of "''/''" Navigation_init "stacked_page 700"]
      click_item_effects [OF contact, of "''/projects/shop''" Navigation_init "stacked_page 700"]
    by (simp add: stacked_page_def)
qed

text \<open>
  C9. When the home page is loaded with a fragment, nothing is scrolled at once: one
  timer of 100 ms is set, and its callback scrolls the element named by the fragment
  into view smoothly; when no element has that id the callback does nothing and raises
  no error.
\<close>

theorem hashEffect_deferred_scroll:
  assumes "hash \<noteq> []"
  shows "hashEffect hash = \<lparr>immediate = [], timers = [(100, drop 1 hash)]\<rparr> \<and>
         (elements w (drop 1 hash) = None \<longrightarrow> hashTimeout (drop 1 hash) w = Inr []) \<and>
         (elements w (drop 1 hash) \<noteq> None \<longrightarrow>
            hashTimeout (drop 1 hash) w = Inr [ScrollIntoView (drop 1 hash) Smooth])"
  using assms
  by (auto simp: hashEffect_def hashTimeout_def scrollIntoView_def Let_def)

theorem hashEffect_deferred_scroll_witness:
  "''#work'' \<noteq> [] \<and>
   hashEffect ''#work'' = \<lparr>immediate = [], timers = [(100, ''work'')]\<rparr> \<and>
   elements (stacked_page 0) ''work'' \<noteq> None \<and>
   hashTimeout ''work'' (stacked_page 0) = Inr [ScrollIntoView ''work'' Smooth] \<and>
   ''#blog'' \<noteq> [] \<and>
   hashEffect ''#blog'' = \<lparr>immediate = [], timers = [(100, ''blog'')]\<rparr> \<and>
   elements (stacked_page 0) ''blog'' = None \<and>
   hashTimeout ''blog'' (stacked_page 0) = Inr []"
proof -
  have a: "''#work'' \<noteq> []" and b: "''#blog'' \<noteq> []"
    by simp_all
  have mounted: "elements (stacked_page 0) ''work'' \<noteq> None"
    and missing: "elements (stacked_page 0) ''blog'' = None"
    by (simp_all add: stacked_page_def)
  show ?thesis
    using a b mounted missing
      hashEffect_deferred_scroll [OF a, of "stacked_page 0"]
      hashEffect_deferred_scroll [OF b, of "stacked_page 0"]
    by simp
qed

end
